theory Spec2Isabelle
  imports Complex_Main "HOL-Library.List_Lexorder"
begin

section \<open>Data model\<close>

text \<open>
  \<^verbatim>\<open>gemmi::Position\<close> is a plain triple of coordinates.  The sampling glue never
  computes with the coordinates, it only carries them from the caller's arrays to
  \<^verbatim>\<open>Grid::interpolate_value\<close>, so the coordinate type is a parameter.  The default
  constructor yields the origin.
\<close>

record 'c Position =
  pos_x :: 'c
  pos_y :: 'c
  pos_z :: 'c

definition Position_default :: "'c::zero Position" where
  "Position_default = \<lparr>pos_x = 0, pos_y = 0, pos_z = 0\<rparr>"

text \<open>
  Reading a \<^verbatim>\<open>std::vector\<close> or an unchecked numpy view outside its bounds is
  undefined behaviour in C++.  The model makes it a value, so that no theorem can
  silently rely on what such a read returns.  The same holds for the overflow of the
  \<^verbatim>\<open>int\<close> loop counter of \<^verbatim>\<open>get_point_position_map\<close>.
\<close>

datatype fault = OutOfBounds | SignedOverflow

subsection \<open>\<^verbatim>\<open>std::map\<close>\<close>

text \<open>
  A \<^verbatim>\<open>std::map<K, V>\<close> is the list of its entries in ascending key order.  Keys are
  \<^verbatim>\<open>std::vector<int>\<close>, compared lexicographically, which is the order of
  \<^typ>\<open>int list\<close>.
\<close>

type_synonym ('k, 'v) std_map = "('k \<times> 'v) list"

type_synonym point_key = "int list"

text \<open>\<^verbatim>\<open>m.insert(std::pair(k, v))\<close>: a key that is already present keeps its old value.\<close>

definition map_insert :: "'k::linorder \<Rightarrow> 'v \<Rightarrow> ('k, 'v) std_map \<Rightarrow> ('k, 'v) std_map" where
  "map_insert k v m =
     (case map_of m k of
        Some old \<Rightarrow> m
      | None \<Rightarrow> insort_key fst (k, v) m)"

text \<open>
  \<^verbatim>\<open>m[k]\<close>: a missing key is inserted with a value-initialised mapped value, and that
  value is returned.  The result is the value read and the map after the access.
\<close>

definition map_subscript :: "'v \<Rightarrow> 'k::linorder \<Rightarrow> ('k, 'v) std_map \<Rightarrow> 'v \<times> ('k, 'v) std_map" where
  "map_subscript dflt k m =
     (case map_of m k of
        Some v \<Rightarrow> (v, m)
      | None \<Rightarrow> (dflt, insort_key fst (k, dflt) m))"

definition map_keys :: "('k, 'v) std_map \<Rightarrow> 'k set" where
  "map_keys m = fst ` set m"

subsection \<open>Arrays\<close>

text \<open>
  The numpy arrays are modelled at the dimension the code indexes them with, and as
  writeable (pybind11 refuses a read-only array before the first loop runs).  A
  two-dimensional array is the list of its rows; \<^verbatim>\<open>a.shape(0)\<close> is the number of
  rows and \<^verbatim>\<open>a(i, j)\<close> is an unchecked read.
\<close>

definition at2 :: "'a list list \<Rightarrow> nat \<Rightarrow> nat \<Rightarrow> fault + 'a" where
  "at2 a i j =
     (if i < length a \<and> j < length (a ! i) then Inr (a ! i ! j) else Inl OutOfBounds)"

text \<open>\<^verbatim>\<open>v[j]\<close> on a \<^verbatim>\<open>std::vector\<close>.\<close>

definition at1 :: "'a list \<Rightarrow> nat \<Rightarrow> fault + 'a" where
  "at1 v j = (if j < length v then Inr (v ! j) else Inl OutOfBounds)"

text \<open>
  The three-dimensional destination array: its shape and its cells.
\<close>

record 'v array3 =
  shape0 :: nat
  shape1 :: nat
  shape2 :: nat
  cells :: "nat \<times> nat \<times> nat \<Rightarrow> 'v"

text \<open>
  The loop counters of \<^verbatim>\<open>fill_array\<close> are \<^verbatim>\<open>ssize_t\<close>; building the key
  \<^verbatim>\<open>std::vector<int> point = { i, j, k }\<close> narrows each of them to a 32-bit
  \<^verbatim>\<open>int\<close>.
\<close>

definition to_int32 :: "nat \<Rightarrow> int" where
  "to_int32 n = (int n + 2 ^ 31) mod 2 ^ 32 - 2 ^ 31"

section \<open>The Python binding (\<^verbatim>\<open>sample.cpp\<close>)\<close>

subsection \<open>\<^verbatim>\<open>get_sample_positions\<close> on arrays\<close>

text \<open>
  One iteration of the loop body: the key built from row \<open>i\<close> of the point array and
  the position built from row \<open>i\<close> of the position array.  Both copies of the
  function in the repository build the key \<^verbatim>\<open>{ pt(i,0), pt(i,0), pt(i,1), pt(i,2) }\<close>;
  the one modelled is the one that compiles.
\<close>

definition sample_row :: "int list list \<Rightarrow> 'c list list \<Rightarrow> nat \<Rightarrow> fault + (point_key \<times> 'c Position)" where
  "sample_row pt ps i =
     (case (at2 pt i 0, at2 pt i 1, at2 pt i 2, at2 ps i 0, at2 ps i 1, at2 ps i 2) of
        (Inr p0, Inr p1, Inr p2, Inr x, Inr y, Inr z) \<Rightarrow>
          Inr ([p0, p0, p1, p2], \<lparr>pos_x = x, pos_y = y, pos_z = z\<rparr>)
      | _ \<Rightarrow> Inl OutOfBounds)"

fun get_sample_positions_rows ::
  "int list list \<Rightarrow> 'c list list \<Rightarrow> nat list \<Rightarrow> (point_key, 'c Position) std_map
    \<Rightarrow> fault + (point_key, 'c Position) std_map" where
  "get_sample_positions_rows pt ps [] points = Inr points"
| "get_sample_positions_rows pt ps (i # rest) points =
     (case sample_row pt ps i of
        Inl e \<Rightarrow> Inl e
      | Inr (location, position) \<Rightarrow>
          get_sample_positions_rows pt ps rest (map_insert location position points))"

definition get_sample_positions ::
  "int list list \<Rightarrow> 'c list list \<Rightarrow> fault + (point_key, 'c Position) std_map" where
  "get_sample_positions sample_points sample_positions =
     get_sample_positions_rows sample_points sample_positions [0..<length sample_points] []"

subsection \<open>\<^verbatim>\<open>fill_array\<close>\<close>

text \<open>
  The state of a run of \<^verbatim>\<open>fill_array\<close>: the destination array, the function's own
  copy of the map (it is passed by value, and \<^verbatim>\<open>operator[]\<close> changes it), and a
  record of the stores \<^verbatim>\<open>r(i, j, k) = value\<close> performed so far, in program order.
\<close>

record ('v, 'w) fill_state =
  fs_array :: "'v array3"
  fs_map :: "(point_key, 'w) std_map"
  fs_writes :: "((nat \<times> nat \<times> nat) \<times> 'v) list"

definition store3 :: "'v array3 \<Rightarrow> nat \<times> nat \<times> nat \<Rightarrow> 'v \<Rightarrow> 'v array3" where
  "store3 a c v = a\<lparr>cells := (cells a)(c := v)\<rparr>"

text \<open>
  The body of the innermost loop of the overload that takes a map of positions.
  \<^verbatim>\<open>Grid::interpolate_value\<close> belongs to the gemmi library and is a parameter here.
\<close>

definition fill_cell ::
  "('g \<Rightarrow> 'c::zero Position \<Rightarrow> 'v) \<Rightarrow> 'g \<Rightarrow> nat \<Rightarrow> nat \<Rightarrow> nat
    \<Rightarrow> ('v, 'c Position) fill_state \<Rightarrow> ('v, 'c Position) fill_state" where
  "fill_cell interpolate_value grid i j k s =
     (let point = [to_int32 i, to_int32 j, to_int32 k];
          (position, sample_points) = map_subscript Position_default point (fs_map s);
          v = interpolate_value grid position
      in \<lparr>fs_array = store3 (fs_array s) (i, j, k) v,
          fs_map = sample_points,
          fs_writes = fs_writes s @ [((i, j, k), v)]\<rparr>)"

definition fill_array ::
  "('g \<Rightarrow> 'c::zero Position \<Rightarrow> 'v) \<Rightarrow> 'v array3 \<Rightarrow> (point_key, 'c Position) std_map \<Rightarrow> 'g
    \<Rightarrow> ('v, 'c Position) fill_state" where
  "fill_array interpolate_value sample_array sample_points grid =
     fold (\<lambda>i. fold (\<lambda>j. fold (\<lambda>k. fill_cell interpolate_value grid i j k)
                              [0..<shape2 sample_array])
                   [0..<shape1 sample_array])
          [0..<shape0 sample_array]
          \<lparr>fs_array = sample_array, fs_map = sample_points, fs_writes = []\<rparr>"

text \<open>The overload that takes a map of values; \<^verbatim>\<open>T()\<close> is zero.\<close>

definition fill_cell_value ::
  "nat \<Rightarrow> nat \<Rightarrow> nat \<Rightarrow> ('v::zero, 'v) fill_state \<Rightarrow> ('v, 'v) fill_state" where
  "fill_cell_value i j k s =
     (let point = [to_int32 i, to_int32 j, to_int32 k];
          (v, sample_values) = map_subscript 0 point (fs_map s)
      in \<lparr>fs_array = store3 (fs_array s) (i, j, k) v,
          fs_map = sample_values,
          fs_writes = fs_writes s @ [((i, j, k), v)]\<rparr>)"

definition fill_array_values ::
  "'v::zero array3 \<Rightarrow> (point_key, 'v) std_map \<Rightarrow> ('v, 'v) fill_state" where
  "fill_array_values sample_array sample_values =
     fold (\<lambda>i. fold (\<lambda>j. fold (\<lambda>k. fill_cell_value i j k)
                              [0..<shape2 sample_array])
                   [0..<shape1 sample_array])
          [0..<shape0 sample_array]
          \<lparr>fs_array = sample_array, fs_map = sample_values, fs_writes = []\<rparr>"

subsection \<open>The bindings \<^verbatim>\<open>sample\<close> and \<^verbatim>\<open>sample_positions\<close>\<close>

definition sample ::
  "('g \<Rightarrow> 'c::zero Position \<Rightarrow> 'v) \<Rightarrow> 'v array3 \<Rightarrow> int list list \<Rightarrow> 'c list list \<Rightarrow> 'g
    \<Rightarrow> fault + ('v, 'c Position) fill_state" where
  "sample interpolate_value sample_array sample_points sample_positions grid =
     (case get_sample_positions sample_points sample_positions of
        Inl e \<Rightarrow> Inl e
      | Inr sample_positions_map \<Rightarrow>
          Inr (fill_array interpolate_value sample_array sample_positions_map grid))"

definition sample_positions ::
  "('g \<Rightarrow> 'c::zero Position \<Rightarrow> 'v) \<Rightarrow> 'v array3 \<Rightarrow> (point_key, 'c Position) std_map \<Rightarrow> 'g
    \<Rightarrow> ('v, 'c Position) fill_state" where
  "sample_positions interpolate_value sample_array sample_positions_map grid =
     fill_array interpolate_value sample_array sample_positions_map grid"

subsection \<open>\<^verbatim>\<open>get_point_position_map\<close>\<close>

text \<open>
  The loop counter is an \<^verbatim>\<open>int\<close>: incrementing it past \<open>2^31 - 1\<close> is a signed
  overflow.  \<^verbatim>\<open>positions[index]\<close> is read without a bounds check.
\<close>

definition point_position_entry ::
  "int list list \<Rightarrow> 'c list list \<Rightarrow> nat \<Rightarrow> fault + (point_key \<times> 'c list)" where
  "point_position_entry points positions index =
     (case (at1 points index, at1 positions index) of
        (Inr location, Inr position) \<Rightarrow> Inr (location, position)
      | _ \<Rightarrow> Inl OutOfBounds)"

fun get_point_position_map_from ::
  "int list list \<Rightarrow> 'c list list \<Rightarrow> nat list \<Rightarrow> (point_key, 'c list) std_map
    \<Rightarrow> fault + (point_key, 'c list) std_map" where
  "get_point_position_map_from points positions [] points_positions_map = Inr points_positions_map"
| "get_point_position_map_from points positions (index # rest) points_positions_map =
     (case point_position_entry points positions index of
        Inl e \<Rightarrow> Inl e
      | Inr (location, position) \<Rightarrow>
          if 2 ^ 31 \<le> index + 1 then Inl SignedOverflow
          else get_point_position_map_from points positions rest
                 (map_insert location position points_positions_map))"

definition get_point_position_map ::
  "int list list \<Rightarrow> 'c list list \<Rightarrow> fault + (point_key, 'c list) std_map" where
  "get_point_position_map points positions =
     get_point_position_map_from points positions [0..<length points] []"

section \<open>The sampling functions of \<^verbatim>\<open>sample.hpp\<close>\<close>

text \<open>
  Both functions walk the input map with an iterator and a \<^verbatim>\<open>while\<close> loop.  The
  iterator is the list of the entries from its position to the end: \<^verbatim>\<open>begin()\<close> is
  the whole list and \<^verbatim>\<open>end()\<close> the empty one.  The loop bodies as written never
  advance the iterator, so the recursive call passes it on unchanged.  A loop that
  does not return has the value \<open>None\<close>.
\<close>

partial_function (option) get_sample_positions_loop ::
  "(point_key \<times> 'c list) list \<Rightarrow> (point_key, 'c Position) std_map
    \<Rightarrow> (fault + (point_key, 'c Position) std_map) option" where
  "get_sample_positions_loop it grid_map =
     (case it of
        [] \<Rightarrow> Some (Inr grid_map)
      | (location, position) # rest \<Rightarrow>
          (case (at1 position 0, at1 position 1, at1 position 2) of
             (Inr x, Inr y, Inr z) \<Rightarrow>
               get_sample_positions_loop it
                 (map_insert location \<lparr>pos_x = x, pos_y = y, pos_z = z\<rparr> grid_map)
           | _ \<Rightarrow> Some (Inl OutOfBounds)))"

definition get_sample_positions_map ::
  "(point_key, 'c list) std_map \<Rightarrow> (fault + (point_key, 'c Position) std_map) option" where
  "get_sample_positions_map positions_map = get_sample_positions_loop positions_map []"

partial_function (option) sample_grid_loop ::
  "('g \<Rightarrow> 'c Position \<Rightarrow> 'v) \<Rightarrow> 'g \<Rightarrow> (point_key \<times> 'c Position) list \<Rightarrow> (point_key, 'v) std_map
    \<Rightarrow> (point_key, 'v) std_map option" where
  "sample_grid_loop interpolate_value grid it values_map =
     (case it of
        [] \<Rightarrow> Some values_map
      | (location, position) # rest \<Rightarrow>
          sample_grid_loop interpolate_value grid it
            (map_insert location (interpolate_value grid position) values_map))"

definition sample_grid ::
  "('g \<Rightarrow> 'c Position \<Rightarrow> 'v) \<Rightarrow> 'g \<Rightarrow> (point_key, 'c Position) std_map
    \<Rightarrow> (point_key, 'v) std_map option" where
  "sample_grid interpolate_value grid positions_map =
     sample_grid_loop interpolate_value grid positions_map []"

subsection \<open>The binding \<^verbatim>\<open>sample_point_positions\<close>\<close>

definition sample_point_positions ::
  "('g \<Rightarrow> 'c Position \<Rightarrow> 'v::zero) \<Rightarrow> 'v array3 \<Rightarrow> int list list \<Rightarrow> 'c list list \<Rightarrow> 'g
    \<Rightarrow> (fault + ('v, 'v) fill_state) option" where
  "sample_point_positions interpolate_value sample_array points positions grid =
     (case get_point_position_map points positions of
        Inl e \<Rightarrow> Some (Inl e)
      | Inr point_positions_map \<Rightarrow>
          (case get_sample_positions_map point_positions_map of
             None \<Rightarrow> None
           | Some (Inl e) \<Rightarrow> Some (Inl e)
           | Some (Inr positions_map) \<Rightarrow>
               (case sample_grid interpolate_value grid positions_map of
                  None \<Rightarrow> None
                | Some sample_values \<Rightarrow> Some (Inr (fill_array_values sample_array sample_values)))))"

section \<open>Unit cell and grid storage\<close>

text \<open>
  The grid and its unit cell belong to the gemmi library, whose headers are not among
  the sources, so this section follows the specification (sections 3 and 4.2).
\<close>

text \<open>Modelled from the spec: the type of the 3x3 matrices of the unit cell (gemmi's
  \<^verbatim>\<open>math.hpp\<close> is missing), entry \<open>mij\<close> in row \<open>i\<close> and column \<open>j\<close>.\<close>

record Mat33 =
  m00 :: real  m01 :: real  m02 :: real
  m10 :: real  m11 :: real  m12 :: real
  m20 :: real  m21 :: real  m22 :: real

text \<open>Modelled from the spec: \<^verbatim>\<open>UnitCell\<close> (gemmi's \<^verbatim>\<open>unitcell.hpp\<close> is missing):
  six real parameters plus the derived orthogonalization and fractionalization
  matrices.\<close>

record UnitCell =
  cell_a :: real
  cell_b :: real
  cell_c :: real
  cell_alpha :: real
  cell_beta :: real
  cell_gamma :: real
  orth :: Mat33
  frac :: Mat33

text \<open>Modelled from the spec: \<^verbatim>\<open>Grid<T>\<close> (gemmi's \<^verbatim>\<open>grid.hpp\<close> is missing): three
  extents, the dense sequence of the elements, and the unit cell.\<close>

record 'a Grid =
  nu :: nat
  nv :: nat
  nw :: nat
  grid_data :: "'a list"
  unit_cell :: UnitCell

text \<open>Modelled from the spec: what construction of a \<^verbatim>\<open>Grid\<close> guarantees (the
  constructor is missing): every extent is at least 1 and there are
  \<open>nu * nv * nw\<close> elements.\<close>

definition Grid_valid :: "'a Grid \<Rightarrow> bool" where
  "Grid_valid g =
     (1 \<le> nu g \<and> 1 \<le> nv g \<and> 1 \<le> nw g \<and> length (grid_data g) = nu g * nv g * nw g)"

text \<open>Modelled from the spec: the storage offset of a logical index (missing with
  \<^verbatim>\<open>grid.hpp\<close>), \<open>((u mod nu) * nv + (v mod nv)) * nw + (w mod nw)\<close>.\<close>

definition grid_offset :: "'a Grid \<Rightarrow> int \<Rightarrow> int \<Rightarrow> int \<Rightarrow> int" where
  "grid_offset g u v w =
     ((u mod int (nu g)) * int (nv g) + (v mod int (nv g))) * int (nw g) + (w mod int (nw g))"

text \<open>Modelled from the spec: \<^verbatim>\<open>at(u, v, w)\<close> (missing with \<^verbatim>\<open>grid.hpp\<close>).  The
  read of the storage is made explicit: an offset outside the stored sequence is a
  fault.\<close>

definition at_grid :: "'a Grid \<Rightarrow> int \<Rightarrow> int \<Rightarrow> int \<Rightarrow> fault + 'a" where
  "at_grid g u v w =
     (let offset = grid_offset g u v w
      in if 0 \<le> offset \<and> offset < int (length (grid_data g))
         then Inr (grid_data g ! nat offset)
         else Inl OutOfBounds)"

text \<open>Modelled from the spec: \<^verbatim>\<open>set(u, v, w, value)\<close> (missing with
  \<^verbatim>\<open>grid.hpp\<close>), with the same explicit storage access.\<close>

definition set_grid :: "'a Grid \<Rightarrow> int \<Rightarrow> int \<Rightarrow> int \<Rightarrow> 'a \<Rightarrow> fault + 'a Grid" where
  "set_grid g u v w x =
     (let offset = grid_offset g u v w
      in if 0 \<le> offset \<and> offset < int (length (grid_data g))
         then Inr (g\<lparr>grid_data := (grid_data g)[nat offset := x]\<rparr>)
         else Inl OutOfBounds)"

section \<open>Auxiliary notions for the statements\<close>

text \<open>The cells of an array of the given shape, in the order the loop nest visits them.\<close>

definition cells_of :: "'v array3 \<Rightarrow> (nat \<times> nat \<times> nat) list" where
  "cells_of a = List.product [0..<shape0 a] (List.product [0..<shape1 a] [0..<shape2 a])"

text \<open>The key \<^verbatim>\<open>fill_array\<close> looks up for a cell.\<close>

definition cell_key :: "nat \<times> nat \<times> nat \<Rightarrow> point_key" where
  "cell_key c = (case c of (i, j, k) \<Rightarrow> [to_int32 i, to_int32 j, to_int32 k])"

text \<open>What \<^verbatim>\<open>m[k]\<close> reads: the stored value, or the default for a missing key.\<close>

definition lookup_or :: "'v \<Rightarrow> ('k, 'v) std_map \<Rightarrow> 'k \<Rightarrow> 'v" where
  "lookup_or dflt m k = (case map_of m k of Some v \<Rightarrow> v | None \<Rightarrow> dflt)"

text \<open>
  One iteration of either loop nest, written once for the proofs: the cell \<open>c\<close> receives
  \<open>f\<close> of what \<^verbatim>\<open>m[key]\<close> reads, and the map is the one left by that access.
\<close>

definition cell_step ::
  "'w \<Rightarrow> ('w \<Rightarrow> 'v) \<Rightarrow> nat \<times> nat \<times> nat \<Rightarrow> ('v, 'w) fill_state \<Rightarrow> ('v, 'w) fill_state" where
  "cell_step dflt f c s =
     \<lparr>fs_array = store3 (fs_array s) c (f (lookup_or dflt (fs_map s) (cell_key c))),
      fs_map = snd (map_subscript dflt (cell_key c) (fs_map s)),
      fs_writes = fs_writes s @ [(c, f (lookup_or dflt (fs_map s) (cell_key c)))]\<rparr>"

section \<open>Concrete inputs\<close>

text \<open>
  Inputs for the evaluations below.  \<^verbatim>\<open>Grid::interpolate_value\<close> is a parameter of
  the model; at a concrete input it is instantiated with a field that is easy to
  evaluate by hand: the grid is a number \<open>g\<close> and the value at \<open>(x, y, z)\<close> is
  \<open>g + x + y + z\<close>.
\<close>

definition field_value :: "real \<Rightarrow> real Position \<Rightarrow> real" where
  "field_value g p = g + pos_x p + pos_y p + pos_z p"

definition single_cell :: "real array3" where
  "single_cell = \<lparr>shape0 = 1, shape1 = 1, shape2 = 1, cells = (\<lambda>c. 9)\<rparr>"

text \<open>A cubic cell of side 2 and a grid of two points along the first axis.\<close>

definition two_point_cell :: UnitCell where
  "two_point_cell =
     \<lparr>cell_a = 2, cell_b = 2, cell_c = 2, cell_alpha = 90, cell_beta = 90, cell_gamma = 90,
      orth = \<lparr>m00 = 2, m01 = 0, m02 = 0, m10 = 0, m11 = 2, m12 = 0, m20 = 0, m21 = 0, m22 = 2\<rparr>,
      frac = \<lparr>m00 = 1/2, m01 = 0, m02 = 0, m10 = 0, m11 = 1/2, m12 = 0, m20 = 0, m21 = 0, m22 = 1/2\<rparr>\<rparr>"

definition two_point_grid :: "real Grid" where
  "two_point_grid = \<lparr>nu = 2, nv = 1, nw = 1, grid_data = [5, 7], unit_cell = two_point_cell\<rparr>"

section \<open>Properties\<close>

subsection \<open>\<^verbatim>\<open>std::map\<close> operations\<close>

lemma map_of_insort_fresh:
  "map_of m k = None \<Longrightarrow>
     map_of (insort_key fst (k, v) m) k' = (if k' = k then Some v else map_of m k')"
  by (induction m) (auto split: if_splits)

lemma map_keys_insort: "map_keys (insort_key fst (k, v) m) = insert k (map_keys m)"
  by (simp add: map_keys_def set_insort_key)

lemma map_keys_map_insert: "map_keys (map_insert k v m) = insert k (map_keys m)"
proof (cases "map_of m k")
  case None
  then show ?thesis by (simp add: map_insert_def map_keys_insort)
next
  case (Some old)
  then have "k \<in> map_keys m"
    by (auto simp: map_keys_def dest: map_of_SomeD intro: rev_image_eqI)
  with Some show ?thesis by (auto simp: map_insert_def)
qed

lemma map_of_map_insert:
  "map_of (map_insert k v m) k' =
     (case map_of m k' of Some x \<Rightarrow> Some x | None \<Rightarrow> if k' = k then Some v else None)"
  by (auto simp: map_insert_def map_of_insort_fresh split: option.splits)

subsection \<open>The loop nest of \<^verbatim>\<open>fill_array\<close>\<close>

lemma map_subscript_read:
  "map_subscript dflt k m = (v, m') \<Longrightarrow> v = lookup_or dflt m k"
  by (auto simp: map_subscript_def lookup_or_def split: option.splits)

lemma map_subscript_map_of:
  "map_subscript dflt k m = (v, m') \<Longrightarrow>
     map_of m' k' = (if k' = k \<and> map_of m k = None then Some dflt else map_of m k')"
  by (auto simp: map_subscript_def map_of_insort_fresh split: option.splits)

lemma lookup_or_map_subscript:
  "map_subscript dflt k m = (v, m') \<Longrightarrow> lookup_or dflt m' k' = lookup_or dflt m k'"
  by (auto simp: lookup_or_def map_subscript_map_of)

lemma fold_product:
  "fold (\<lambda>x. fold (f x) ys) xs s = fold (\<lambda>(x, y). f x y) (List.product xs ys) s"
  by (induction xs arbitrary: s) (simp_all add: fold_map comp_def)

lemma fold_product3:
  "fold (\<lambda>i. fold (\<lambda>j. fold (\<lambda>k. f i j k) ks) js) is s =
     fold (\<lambda>(i, j, k). f i j k) (List.product is (List.product js ks)) s"
proof -
  have inner: "\<And>i. fold (\<lambda>j. fold (\<lambda>k. f i j k) ks) js = fold (\<lambda>(j, k). f i j k) (List.product js ks)"
    by (rule ext) (rule fold_product)
  have "fold (\<lambda>i. fold (\<lambda>(j, k). f i j k) (List.product js ks)) is s =
      fold (\<lambda>(i, y). (\<lambda>(j, k). f i j k) y) (List.product is (List.product js ks)) s"
    by (rule fold_product)
  then show ?thesis by (simp add: inner)
qed

lemma fill_array_flat:
  "fill_array interpolate_value a sp grid =
     fold (\<lambda>(i, j, k). fill_cell interpolate_value grid i j k) (cells_of a)
       \<lparr>fs_array = a, fs_map = sp, fs_writes = []\<rparr>"
  unfolding fill_array_def cells_of_def by (rule fold_product3)

lemma fill_array_values_flat:
  "fill_array_values a sv =
     fold (\<lambda>(i, j, k). fill_cell_value i j k) (cells_of a)
       \<lparr>fs_array = a, fs_map = sv, fs_writes = []\<rparr>"
  unfolding fill_array_values_def cells_of_def by (rule fold_product3)

lemma fill_cell_step:
  "fill_cell interpolate_value grid i j k = cell_step Position_default (interpolate_value grid) (i, j, k)"
  by (rule ext)
    (auto simp: fill_cell_def cell_step_def cell_key_def Let_def split: prod.splits
      dest: map_subscript_read)

lemma fill_cell_value_step:
  "fill_cell_value i j k = cell_step 0 (\<lambda>v. v) (i, j, k)"
  by (rule ext)
    (auto simp: fill_cell_value_def cell_step_def cell_key_def Let_def split: prod.splits
      dest: map_subscript_read)

lemma fill_array_steps:
  "fill_array interpolate_value a sp grid =
     fold (cell_step Position_default (interpolate_value grid)) (cells_of a)
       \<lparr>fs_array = a, fs_map = sp, fs_writes = []\<rparr>"
  by (simp add: fill_array_flat fill_cell_step case_prod_eta cong: )

lemma fill_array_values_steps:
  "fill_array_values a sv =
     fold (cell_step 0 (\<lambda>v. v)) (cells_of a) \<lparr>fs_array = a, fs_map = sv, fs_writes = []\<rparr>"
  by (simp add: fill_array_values_flat fill_cell_value_step case_prod_eta)

lemma cell_step_lookup:
  "lookup_or dflt (fs_map (cell_step dflt f c s)) k = lookup_or dflt (fs_map s) k"
  by (simp add: cell_step_def lookup_or_map_subscript [OF surjective_pairing])

lemma cell_step_map_of:
  "map_of (fs_map (cell_step dflt f c s)) k =
     (if k = cell_key c \<and> map_of (fs_map s) k = None then Some dflt else map_of (fs_map s) k)"
  by (auto simp: cell_step_def map_subscript_map_of [OF surjective_pairing])

lemma fold_cell_step_lookup:
  "lookup_or dflt (fs_map (fold (cell_step dflt f) cs s)) k = lookup_or dflt (fs_map s) k"
  by (induction cs arbitrary: s) (simp_all add: cell_step_lookup)

lemma fold_cell_step_writes:
  "fs_writes (fold (cell_step dflt f) cs s) =
     fs_writes s @ map (\<lambda>c. (c, f (lookup_or dflt (fs_map s) (cell_key c)))) cs"
proof (induction cs arbitrary: s)
  case Nil
  show ?case by simp
next
  case (Cons c cs)
  have "fs_writes (cell_step dflt f c s) = fs_writes s @ [(c, f (lookup_or dflt (fs_map s) (cell_key c)))]"
    by (simp add: cell_step_def)
  then show ?case
    by (simp add: Cons.IH cell_step_lookup)
qed

lemma fold_cell_step_cells:
  "cells (fs_array (fold (cell_step dflt f) cs s)) c =
     (if c \<in> set cs then f (lookup_or dflt (fs_map s) (cell_key c)) else cells (fs_array s) c)"
proof (induction cs arbitrary: s)
  case Nil
  show ?case by simp
next
  case (Cons d cs)
  have st: "\<And>e. cells (fs_array (cell_step dflt f d s)) e =
      (if e = d then f (lookup_or dflt (fs_map s) (cell_key e)) else cells (fs_array s) e)"
    by (simp add: cell_step_def store3_def)
  show ?case
    by (simp add: Cons.IH cell_step_lookup st)
qed

lemma fold_cell_step_shape:
  "shape0 (fs_array (fold (cell_step dflt f) cs s)) = shape0 (fs_array s) \<and>
   shape1 (fs_array (fold (cell_step dflt f) cs s)) = shape1 (fs_array s) \<and>
   shape2 (fs_array (fold (cell_step dflt f) cs s)) = shape2 (fs_array s)"
  by (induction cs arbitrary: s) (simp_all add: cell_step_def store3_def)

lemma fold_cell_step_map_of:
  "map_of (fs_map (fold (cell_step dflt f) cs s)) k =
     (if k \<in> cell_key ` set cs \<and> map_of (fs_map s) k = None then Some dflt
      else map_of (fs_map s) k)"
  by (induction cs arbitrary: s) (auto simp: cell_step_map_of)

lemma set_cells_of:
  "set (cells_of a) = {(i, j, k). i < shape0 a \<and> j < shape1 a \<and> k < shape2 a}"
  by (auto simp: cells_of_def)



subsection \<open>Keys built from the point array\<close>

lemma sample_row_key:
  "sample_row pt ps i = Inr (location, position) \<Longrightarrow>
     location = [pt ! i ! 0, pt ! i ! 0, pt ! i ! 1, pt ! i ! 2]"
  by (auto simp: sample_row_def at2_def split: if_splits)

lemma get_sample_positions_rows_keys:
  "get_sample_positions_rows pt ps idx acc = Inr points \<Longrightarrow>
     map_keys points =
       map_keys acc \<union> (\<lambda>i. [pt ! i ! 0, pt ! i ! 0, pt ! i ! 1, pt ! i ! 2]) ` set idx"
proof (induction idx arbitrary: acc)
  case Nil
  then show ?case by simp
next
  case (Cons i rest)
  from Cons.prems obtain location position where
    row: "sample_row pt ps i = Inr (location, position)" and
    rec: "get_sample_positions_rows pt ps rest (map_insert location position acc) = Inr points"
    by (auto split: sum.splits)
  from Cons.IH [OF rec] sample_row_key [OF row] show ?case
    by (auto simp: map_keys_map_insert)
qed

lemma get_sample_positions_keys:
  "get_sample_positions pt ps = Inr points \<Longrightarrow>
     map_keys points = (\<lambda>i. [pt ! i ! 0, pt ! i ! 0, pt ! i ! 1, pt ! i ! 2]) ` {..<length pt}"
proof -
  assume "get_sample_positions pt ps = Inr points"
  then have "get_sample_positions_rows pt ps [0..<length pt] [] = Inr points"
    by (simp add: get_sample_positions_def)
  from get_sample_positions_rows_keys [OF this] show ?thesis
    by (simp add: map_keys_def lessThan_atLeast0)
qed

lemma sample_row_Inr_iff:
  "(\<exists>e. sample_row pt ps i = Inr e) =
     (i < length pt \<and> 3 \<le> length (pt ! i) \<and> i < length ps \<and> 3 \<le> length (ps ! i))"
  by (auto simp: sample_row_def at2_def split: if_splits)

lemma sample_row_value:
  "sample_row pt ps i = Inr (location, position) \<Longrightarrow>
     location = [pt ! i ! 0, pt ! i ! 0, pt ! i ! 1, pt ! i ! 2]
     \<and> position = \<lparr>pos_x = ps ! i ! 0, pos_y = ps ! i ! 1, pos_z = ps ! i ! 2\<rparr>"
  by (auto simp: sample_row_def at2_def split: if_splits)

lemma get_sample_positions_rows_returns:
  "(\<exists>points. get_sample_positions_rows pt ps idx acc = Inr points) =
     (\<forall>i \<in> set idx. i < length pt \<and> 3 \<le> length (pt ! i) \<and> i < length ps \<and> 3 \<le> length (ps ! i))"
proof (induction idx arbitrary: acc)
  case Nil
  show ?case by simp
next
  case (Cons i rest)
  show ?case
  proof (cases "sample_row pt ps i")
    case (Inl e)
    then have "\<not> (\<exists>e. sample_row pt ps i = Inr e)" by simp
    then have "\<not> (i < length pt \<and> 3 \<le> length (pt ! i) \<and> i < length ps \<and> 3 \<le> length (ps ! i))"
      using sample_row_Inr_iff [of pt ps i] by blast
    with Inl show ?thesis by auto
  next
    case (Inr entry)
    then have "\<exists>e. sample_row pt ps i = Inr e" by blast
    then have ok: "i < length pt \<and> 3 \<le> length (pt ! i) \<and> i < length ps \<and> 3 \<le> length (ps ! i)"
      using sample_row_Inr_iff [of pt ps i] by blast
    obtain location position where entry: "entry = (location, position)" by (cases entry)
    from Inr entry ok Cons.IH [of "map_insert location position acc"] show ?thesis
      by simp
  qed
qed

lemma get_sample_positions_rows_map_of:
  "get_sample_positions_rows pt ps idx acc = Inr points \<Longrightarrow>
     map_of points key =
       (case map_of acc key of
          Some p \<Rightarrow> Some p
        | None \<Rightarrow>
            map_of (map (\<lambda>i. ([pt ! i ! 0, pt ! i ! 0, pt ! i ! 1, pt ! i ! 2],
                               \<lparr>pos_x = ps ! i ! 0, pos_y = ps ! i ! 1, pos_z = ps ! i ! 2\<rparr>)) idx) key)"
proof (induction idx arbitrary: acc)
  case Nil
  then show ?case by (simp split: option.splits)
next
  case (Cons i rest)
  from Cons.prems obtain location position where
    row: "sample_row pt ps i = Inr (location, position)" and
    rec: "get_sample_positions_rows pt ps rest (map_insert location position acc) = Inr points"
    by (auto split: sum.splits)
  from Cons.IH [OF rec] sample_row_value [OF row] show ?case
    by (auto simp: map_of_map_insert split: option.splits)
qed

lemma get_sample_positions_three_rows:
  "get_sample_positions [[1, 2, 3], [4, 5, 6], [1, 2, 3]] [[10, 20, 30], [40, 50, 60], [70, 80, 90 :: int]]
     = Inr [([1, 1, 2, 3], \<lparr>pos_x = 10, pos_y = 20, pos_z = 30\<rparr>),
            ([4, 4, 5, 6], \<lparr>pos_x = 40, pos_y = 50, pos_z = 60\<rparr>)]"
  by (simp add: get_sample_positions_def sample_row_def at2_def map_insert_def
      upt_rec [of 0 3] upt_rec [of 1 3] upt_rec [of 2 3])

text \<open>
  C6.  \<^verbatim>\<open>get_sample_positions\<close> returns exactly when every row \<open>i\<close> of the point array
  and of the position array can be read (three entries each).  Then, for every row
  \<open>i\<close>, the key it inserts is the four-component vector
  \<open>{pt(i,0), pt(i,0), pt(i,1), pt(i,2)}\<close>, with the first point index duplicated, not the
  triple \<open>(pt(i,0), pt(i,1), pt(i,2))\<close>: these are all the keys of the result, each
  mapped to the position of the first row that gives it, and no key is a
  three-component cell key \<open>{i, j, k}\<close> as \<^verbatim>\<open>fill_array\<close> looks them up.
\<close>

theorem get_sample_positions_four_component_keys:
  "((\<exists>points. get_sample_positions pt ps = Inr points)
      = (\<forall>i < length pt. 3 \<le> length (pt ! i) \<and> i < length ps \<and> 3 \<le> length (ps ! i)))
   \<and> (\<forall>points. get_sample_positions pt ps = Inr points \<longrightarrow>
         map_keys points = {[pt ! i ! 0, pt ! i ! 0, pt ! i ! 1, pt ! i ! 2] | i. i < length pt}
         \<and> (\<forall>key \<in> map_keys points. length key = 4)
         \<and> (\<forall>i j k. [to_int32 i, to_int32 j, to_int32 k] \<notin> map_keys points)
         \<and> (\<forall>key. map_of points key =
               map_of (map (\<lambda>i. ([pt ! i ! 0, pt ! i ! 0, pt ! i ! 1, pt ! i ! 2],
                                  \<lparr>pos_x = ps ! i ! 0, pos_y = ps ! i ! 1, pos_z = ps ! i ! 2\<rparr>))
                           [0..<length pt]) key))"
proof -
  have returns: "(\<exists>points. get_sample_positions pt ps = Inr points)
      = (\<forall>i < length pt. 3 \<le> length (pt ! i) \<and> i < length ps \<and> 3 \<le> length (ps ! i))"
    unfolding get_sample_positions_def get_sample_positions_rows_returns by auto
  have result: "map_keys points = {[pt ! i ! 0, pt ! i ! 0, pt ! i ! 1, pt ! i ! 2] | i. i < length pt}
         \<and> (\<forall>key \<in> map_keys points. length key = 4)
         \<and> (\<forall>i j k. [to_int32 i, to_int32 j, to_int32 k] \<notin> map_keys points)
         \<and> (\<forall>key. map_of points key =
               map_of (map (\<lambda>i. ([pt ! i ! 0, pt ! i ! 0, pt ! i ! 1, pt ! i ! 2],
                                  \<lparr>pos_x = ps ! i ! 0, pos_y = ps ! i ! 1, pos_z = ps ! i ! 2\<rparr>))
                           [0..<length pt]) key)"
    if run: "get_sample_positions pt ps = Inr points" for points
  proof -
    have keys: "map_keys points = {[pt ! i ! 0, pt ! i ! 0, pt ! i ! 1, pt ! i ! 2] | i. i < length pt}"
      using get_sample_positions_keys [OF run] by auto
    then have four: "\<forall>key \<in> map_keys points. length key = 4"
      by auto
    then have no_cell: "\<forall>i j k. [to_int32 i, to_int32 j, to_int32 k] \<notin> map_keys points"
      by fastforce
    from run have "get_sample_positions_rows pt ps [0..<length pt] [] = Inr points"
      by (simp add: get_sample_positions_def)
    from get_sample_positions_rows_map_of [OF this]
    have "\<forall>key. map_of points key =
               map_of (map (\<lambda>i. ([pt ! i ! 0, pt ! i ! 0, pt ! i ! 1, pt ! i ! 2],
                                  \<lparr>pos_x = ps ! i ! 0, pos_y = ps ! i ! 1, pos_z = ps ! i ! 2\<rparr>))
                           [0..<length pt]) key"
      by simp
    with keys four no_cell show ?thesis by blast
  qed
  from returns result show ?thesis by blast
qed

theorem get_sample_positions_four_component_keys_witness:
  "get_sample_positions [[1, 2, 3], [4, 5, 6], [1, 2, 3]] [[10, 20, 30], [40, 50, 60], [70, 80, 90 :: int]]
     = Inr [([1, 1, 2, 3], \<lparr>pos_x = 10, pos_y = 20, pos_z = 30\<rparr>),
            ([4, 4, 5, 6], \<lparr>pos_x = 40, pos_y = 50, pos_z = 60\<rparr>)]
   \<and> map_keys [([1, 1, 2, 3 :: int], \<lparr>pos_x = 10, pos_y = 20, pos_z = 30 :: int\<rparr>),
                ([4, 4, 5, 6], \<lparr>pos_x = 40, pos_y = 50, pos_z = 60\<rparr>)]
       = {[1, 1, 2, 3], [4, 4, 5, 6]}
   \<and> [to_int32 1, to_int32 2, to_int32 3]
       \<notin> map_keys [([1, 1, 2, 3 :: int], \<lparr>pos_x = 10, pos_y = 20, pos_z = 30 :: int\<rparr>),
                    ([4, 4, 5, 6], \<lparr>pos_x = 40, pos_y = 50, pos_z = 60\<rparr>)]
   \<and> get_sample_positions [[1, 2, 3], [4, 5]] [[10, 20, 30], [40, 50, 60 :: int]] = Inl OutOfBounds"
proof -
  have short: "get_sample_positions [[1, 2, 3], [4, 5]] [[10, 20, 30], [40, 50, 60 :: int]] = Inl OutOfBounds"
    by (simp add: get_sample_positions_def sample_row_def at2_def map_insert_def
        upt_rec [of 0 2] upt_rec [of 1 2])
  from get_sample_positions_four_component_keys
    [of "[[1, 2, 3], [4, 5, 6], [1, 2, 3]]" "[[10, 20, 30], [40, 50, 60], [70, 80, 90 :: int]]"]
  show ?thesis
    by (simp add: get_sample_positions_three_rows short map_keys_def)
qed

subsection \<open>What \<^verbatim>\<open>fill_array\<close> stores\<close>

lemma fill_array_writes:
  "fs_writes (fill_array interpolate_value a sp grid) =
     map (\<lambda>c. (c, interpolate_value grid (lookup_or Position_default sp (cell_key c)))) (cells_of a)"
  by (simp add: fill_array_steps fold_cell_step_writes)

lemma fill_array_cells:
  "cells (fs_array (fill_array interpolate_value a sp grid)) c =
     (if c \<in> set (cells_of a)
      then interpolate_value grid (lookup_or Position_default sp (cell_key c))
      else cells a c)"
  by (simp add: fill_array_steps fold_cell_step_cells)

lemma fill_array_values_writes:
  "fs_writes (fill_array_values a sv) = map (\<lambda>c. (c, lookup_or 0 sv (cell_key c))) (cells_of a)"
  by (simp add: fill_array_values_steps fold_cell_step_writes)

lemma fill_array_values_cells:
  "cells (fs_array (fill_array_values a sv)) c =
     (if c \<in> set (cells_of a) then lookup_or 0 sv (cell_key c) else cells a c)"
  by (simp add: fill_array_values_steps fold_cell_step_cells)

lemma lookup_or_missing: "k \<notin> map_keys m \<Longrightarrow> lookup_or dflt m k = dflt"
  by (auto simp: lookup_or_def map_keys_def split: option.splits dest: map_of_SomeD intro: rev_image_eqI)

lemma map_of_missing: "k \<notin> map_keys m \<Longrightarrow> map_of m k = None"
  by (simp add: map_keys_def map_of_eq_None_iff)

lemma cells_of_single_cell: "cells_of single_cell = [(0, 0, 0)]"
  by (simp add: cells_of_def single_cell_def)

lemma get_sample_positions_no_cell_key:
  "get_sample_positions pt ps = Inr m \<Longrightarrow> cell_key c \<notin> map_keys m"
  by (cases c) (auto simp: cell_key_def dest!: get_sample_positions_keys)

text \<open>
  C10.  Let \<open>(i, j, k)\<close> be a cell of the destination array whose key \<open>{i, j, k}\<close> is
  absent from the supplied map.  Neither overload of \<^verbatim>\<open>fill_array\<close> has an error
  path; \<^verbatim>\<open>operator[]\<close> inserts the key with a default value.  The overload on a map
  of values stores \<^verbatim>\<open>T()\<close>, that is zero, into the cell, and the overload on a map of
  positions stores the interpolation at the default \<^verbatim>\<open>Position\<close> \<open>(0, 0, 0)\<close>.
\<close>

theorem fill_array_missing_key_gets_default:
  assumes "i < shape0 a" and "j < shape1 a" and "k < shape2 a"
    and "i < shape0 b" and "j < shape1 b" and "k < shape2 b"
    and "[to_int32 i, to_int32 j, to_int32 k] \<notin> map_keys sv"
    and "[to_int32 i, to_int32 j, to_int32 k] \<notin> map_keys sp"
  shows "cells (fs_array (fill_array_values a sv)) (i, j, k) = 0
    \<and> ((i, j, k), 0) \<in> set (fs_writes (fill_array_values a sv))
    \<and> map_of (fs_map (fill_array_values a sv)) [to_int32 i, to_int32 j, to_int32 k] = Some 0
    \<and> cells (fs_array (fill_array interpolate_value b sp grid)) (i, j, k)
        = interpolate_value grid \<lparr>pos_x = 0, pos_y = 0, pos_z = 0\<rparr>
    \<and> ((i, j, k), interpolate_value grid \<lparr>pos_x = 0, pos_y = 0, pos_z = 0\<rparr>)
        \<in> set (fs_writes (fill_array interpolate_value b sp grid))
    \<and> map_of (fs_map (fill_array interpolate_value b sp grid)) [to_int32 i, to_int32 j, to_int32 k]
        = Some \<lparr>pos_x = 0, pos_y = 0, pos_z = 0\<rparr>"
proof -
  let ?c = "(i, j, k)"
  have key: "cell_key ?c = [to_int32 i, to_int32 j, to_int32 k]"
    by (simp add: cell_key_def)
  have in_a: "?c \<in> set (cells_of a)" and in_b: "?c \<in> set (cells_of b)"
    using assms by (simp_all add: set_cells_of)
  have lv: "lookup_or 0 sv (cell_key ?c) = 0"
    using assms(7) by (simp add: key lookup_or_missing)
  have lp: "lookup_or Position_default sp (cell_key ?c) = Position_default"
    using assms(8) by (simp add: key lookup_or_missing)
  have v1: "cells (fs_array (fill_array_values a sv)) ?c = 0"
    using in_a lv by (simp add: fill_array_values_cells)
  have v2: "(?c, 0) \<in> set (fs_writes (fill_array_values a sv))"
    unfolding fill_array_values_writes using in_a lv by (force simp: image_iff)
  have ka: "[to_int32 i, to_int32 j, to_int32 k] \<in> cell_key ` set (cells_of a)"
    using imageI [OF in_a, of cell_key] by (simp add: key)
  have kb: "[to_int32 i, to_int32 j, to_int32 k] \<in> cell_key ` set (cells_of b)"
    using imageI [OF in_b, of cell_key] by (simp add: key)
  have v3: "map_of (fs_map (fill_array_values a sv)) (cell_key ?c) = Some 0"
    unfolding fill_array_values_steps fold_cell_step_map_of
    using ka assms(7) by (simp add: key map_of_missing)
  have p1: "cells (fs_array (fill_array interpolate_value b sp grid)) ?c
      = interpolate_value grid Position_default"
    using in_b lp by (simp add: fill_array_cells)
  have p2: "(?c, interpolate_value grid Position_default)
      \<in> set (fs_writes (fill_array interpolate_value b sp grid))"
    unfolding fill_array_writes using in_b lp by (force simp: image_iff)
  have p3: "map_of (fs_map (fill_array interpolate_value b sp grid)) (cell_key ?c)
      = Some Position_default"
    unfolding fill_array_steps fold_cell_step_map_of
    using kb assms(8) by (simp add: key map_of_missing)
  from v1 v2 v3 p1 p2 p3 show ?thesis
    by (simp add: key Position_default_def)
qed

theorem fill_array_missing_key_gets_default_witness:
  "(0::nat) < shape0 single_cell \<and> (0::nat) < shape1 single_cell \<and> (0::nat) < shape2 single_cell
   \<and> [to_int32 0, to_int32 0, to_int32 0] \<notin> map_keys [([1, 1, 1], 5 :: real)]
   \<and> [to_int32 0, to_int32 0, to_int32 0] \<notin> map_keys [([1, 1, 1], \<lparr>pos_x = 1, pos_y = 2, pos_z = 3 :: real\<rparr>)]
   \<and> cells (fs_array (fill_array_values single_cell [([1, 1, 1], 5)])) (0, 0, 0) = 0
   \<and> cells (fs_array (fill_array field_value single_cell
          [([1, 1, 1], \<lparr>pos_x = 1, pos_y = 2, pos_z = 3\<rparr>)] 7)) (0, 0, 0) = 7"
  using fill_array_missing_key_gets_default [of 0 single_cell 0 0 single_cell
      "[([1, 1, 1], 5 :: real)]" "[([1, 1, 1], \<lparr>pos_x = 1, pos_y = 2, pos_z = 3 :: real\<rparr>)]"
      field_value 7]
  by (simp add: single_cell_def map_keys_def to_int32_def field_value_def)



text \<open>
  C1 says that the binding \<^verbatim>\<open>sample\<close> stores into each cell the interpolation at
  the position the caller supplied for it.  The code does not: the keys built by
  \<^verbatim>\<open>get_sample_positions\<close> have four components, \<^verbatim>\<open>fill_array\<close> finds none of
  its three-component keys, and whenever \<^verbatim>\<open>sample\<close> returns it has stored, once
  into every cell, the interpolation at the default position \<open>(0, 0, 0)\<close>, whatever
  positions the caller supplied.
\<close>

theorem sample_stores_origin_value_everywhere:
  assumes "get_sample_positions pt ps = Inr m"
  shows "sample interpolate_value a pt ps grid = Inr (fill_array interpolate_value a m grid)
    \<and> fs_writes (fill_array interpolate_value a m grid) =
        map (\<lambda>c. (c, interpolate_value grid \<lparr>pos_x = 0, pos_y = 0, pos_z = 0\<rparr>)) (cells_of a)"
proof -
  have "\<And>c. lookup_or Position_default m (cell_key c) = Position_default"
    using get_sample_positions_no_cell_key [OF assms] by (simp add: lookup_or_missing)
  then show ?thesis
    using assms by (simp add: sample_def fill_array_writes Position_default_def)
qed

theorem sample_stores_origin_value_everywhere_witness:
  "get_sample_positions [[0, 0, 0]] [[1, 2, 3 :: real]]
      = Inr [([0, 0, 0, 0], \<lparr>pos_x = 1, pos_y = 2, pos_z = 3\<rparr>)]
   \<and> sample field_value single_cell [[0, 0, 0]] [[1, 2, 3]] 7
      = Inr (fill_array field_value single_cell [([0, 0, 0, 0], \<lparr>pos_x = 1, pos_y = 2, pos_z = 3\<rparr>)] 7)
   \<and> fs_writes (fill_array field_value single_cell
        [([0, 0, 0, 0], \<lparr>pos_x = 1, pos_y = 2, pos_z = 3\<rparr>)] 7) = [((0, 0, 0), 7)]
   \<and> field_value 7 \<lparr>pos_x = 1, pos_y = 2, pos_z = 3\<rparr> = 13"
proof -
  have run: "get_sample_positions [[0, 0, 0]] [[1, 2, 3 :: real]]
      = Inr [([0, 0, 0, 0], \<lparr>pos_x = 1, pos_y = 2, pos_z = 3\<rparr>)]"
    by (simp add: get_sample_positions_def sample_row_def at2_def map_insert_def)
  from sample_stores_origin_value_everywhere [OF run, of field_value single_cell 7] run
  show ?thesis
    by (simp add: cells_of_single_cell field_value_def)
qed

subsection \<open>The loops of \<^verbatim>\<open>sample.hpp\<close>\<close>

lemma sample_grid_loop_returns_only_at_end:
  assumes "sample_grid_loop interpolate_value grid it values_map = Some r"
  shows "it = []"
proof (rule sample_grid_loop.raw_induct
        [where P = "\<lambda>interpolate_value grid it values_map r. it = []", OF _ assms], goal_cases)
  case (1 loop interpolate_value grid it values_map r)
  show ?case
  proof (cases it)
    case Nil
    then show ?thesis .
  next
    case (Cons entry rest)
    with 1(2) obtain values_map' where "loop interpolate_value grid it values_map' = Some r"
      by (auto split: prod.splits)
    then show ?thesis by (rule 1(1))
  qed
qed

lemma get_sample_positions_loop_result:
  assumes "get_sample_positions_loop it grid_map = Some res"
  shows "case res of
           Inl e \<Rightarrow> \<exists>location position rest. it = (location, position) # rest \<and> length position < 3
         | Inr m \<Rightarrow> it = []"
proof (rule get_sample_positions_loop.raw_induct
        [where P = "\<lambda>it grid_map res. case res of
             Inl e \<Rightarrow> \<exists>location position rest. it = (location, position) # rest \<and> length position < 3
           | Inr m \<Rightarrow> it = []", OF _ assms], goal_cases)
  case (1 loop it grid_map res)
  show ?case
  proof (cases it)
    case Nil
    with 1(2) show ?thesis by auto
  next
    case (Cons entry rest)
    obtain location position where entry: "entry = (location, position)"
      by (cases entry)
    show ?thesis
    proof (cases "length position < 3")
      case True
      with 1(2) Cons entry show ?thesis
        by (auto simp: at1_def split: if_splits)
    next
      case False
      with 1(2) Cons entry obtain grid_map' where "loop it grid_map' = Some res"
        by (auto simp: at1_def split: if_splits)
      then show ?thesis by (rule 1(1))
    qed
  qed
qed

lemma get_sample_positions_loop_returns_only_at_end:
  "get_sample_positions_loop it grid_map = Some (Inr r) \<Longrightarrow> it = []"
  by (drule get_sample_positions_loop_result) simp

lemma get_sample_positions_loop_fault:
  "get_sample_positions_loop it grid_map = Some (Inl e) \<Longrightarrow>
     \<exists>location position rest. it = (location, position) # rest \<and> length position < 3"
  by (drule get_sample_positions_loop_result) simp

lemma get_sample_positions_loop_short:
  "length position < 3 \<Longrightarrow>
     get_sample_positions_loop ((location, position) # rest) grid_map = Some (Inl OutOfBounds)"
  by (subst get_sample_positions_loop.simps) (auto simp: at1_def split: sum.splits)

lemma get_sample_positions_loop_diverges:
  assumes "3 \<le> length position"
  shows "get_sample_positions_loop ((location, position) # rest) grid_map = None"
proof (cases "get_sample_positions_loop ((location, position) # rest) grid_map")
  case None
  then show ?thesis .
next
  case (Some res)
  show ?thesis
  proof (cases res)
    case (Inl e)
    with Some get_sample_positions_loop_fault [of "(location, position) # rest" grid_map e] assms
    show ?thesis by simp
  next
    case (Inr m)
    with Some get_sample_positions_loop_returns_only_at_end [of "(location, position) # rest" grid_map m]
    show ?thesis by simp
  qed
qed

lemma sample_grid_loop_diverges:
  "it \<noteq> [] \<Longrightarrow> sample_grid_loop interpolate_value grid it values_map = None"
  using sample_grid_loop_returns_only_at_end [of interpolate_value grid it values_map]
  by (cases "sample_grid_loop interpolate_value grid it values_map") auto

lemma sample_grid_loop_end: "sample_grid_loop interpolate_value grid [] values_map = Some values_map"
  by (subst sample_grid_loop.simps) simp

lemma get_sample_positions_loop_end: "get_sample_positions_loop [] grid_map = Some (Inr grid_map)"
  by (subst get_sample_positions_loop.simps) simp

text \<open>
  C3 asks that \<^verbatim>\<open>get_sample_positions\<close> and \<^verbatim>\<open>sample_grid\<close> of
  \<^verbatim>\<open>sample.hpp\<close> return on every input map.  As written they return exactly on
  the empty map.  On a non-empty map \<^verbatim>\<open>sample_grid\<close> never returns, and
  \<^verbatim>\<open>get_sample_positions\<close> never returns when the first entry holds at least
  three coordinates (with fewer it reads the vector out of bounds at once).
\<close>

theorem sample_hpp_loops_return_only_on_empty_map:
  "((\<exists>r. get_sample_positions_map sp = Some (Inr r)) = (sp = []))
   \<and> ((get_sample_positions_map sp = None)
        = (case sp of [] \<Rightarrow> False | (location, position) # rest \<Rightarrow> 3 \<le> length position))
   \<and> ((\<exists>r. sample_grid interpolate_value grid sq = Some r) = (sq = []))
   \<and> ((sample_grid interpolate_value grid sq = None) = (sq \<noteq> []))"
proof -
  have a: "(\<exists>r. get_sample_positions_map sp = Some (Inr r)) = (sp = [])"
    unfolding get_sample_positions_map_def
    by (auto simp: get_sample_positions_loop_end dest: get_sample_positions_loop_returns_only_at_end)
  have b: "(get_sample_positions_map sp = None)
      = (case sp of [] \<Rightarrow> False | (location, position) # rest \<Rightarrow> 3 \<le> length position)"
  proof (cases sp)
    case Nil
    then show ?thesis by (simp add: get_sample_positions_map_def get_sample_positions_loop_end)
  next
    case (Cons entry rest)
    obtain location position where entry: "entry = (location, position)" by (cases entry)
    show ?thesis
    proof (cases "3 \<le> length position")
      case True
      with Cons entry show ?thesis
        by (simp add: get_sample_positions_map_def get_sample_positions_loop_diverges)
    next
      case False
      then have "length position < 3" by simp
      with Cons entry show ?thesis
        by (simp add: get_sample_positions_map_def get_sample_positions_loop_short)
    qed
  qed
  have c: "(\<exists>r. sample_grid interpolate_value grid sq = Some r) = (sq = [])"
    unfolding sample_grid_def
    by (auto simp: sample_grid_loop_end dest: sample_grid_loop_returns_only_at_end)
  have d: "(sample_grid interpolate_value grid sq = None) = (sq \<noteq> [])"
    unfolding sample_grid_def
    by (cases sq) (simp_all add: sample_grid_loop_end sample_grid_loop_diverges)
  from a b c d show ?thesis by blast
qed

text \<open>
  C2 says that \<^verbatim>\<open>sample_grid\<close> returns a map with the keys of its input.  On the
  map with the single entry \<open>{0, 0, 0} \<mapsto> (1, 2, 3)\<close> it returns nothing at all.
\<close>

theorem sample_grid_single_point_never_returns:
  "sample_grid field_value 7 [([0, 0, 0], \<lparr>pos_x = 1, pos_y = 2, pos_z = 3\<rparr>)] = None"
  by (simp add: sample_grid_def sample_grid_loop_diverges)

subsection \<open>Duplicate keys in \<^verbatim>\<open>get_point_position_map\<close>\<close>

lemma get_point_position_map_from_ok:
  assumes "\<forall>index \<in> set idx. index < length points \<and> index < length positions \<and> index + 1 < 2 ^ 31"
  shows "\<exists>m'. get_point_position_map_from points positions idx m = Inr m'
    \<and> (\<forall>key. map_of m' key =
          (case map_of m key of
             Some x \<Rightarrow> Some x
           | None \<Rightarrow> map_of (map (\<lambda>i. (points ! i, positions ! i)) idx) key))
    \<and> map_keys m' = map_keys m \<union> (\<lambda>i. points ! i) ` set idx"
  using assms
proof (induction idx arbitrary: m)
  case Nil
  show ?case by (simp split: option.splits)
next
  case (Cons index rest)
  then have ok: "index < length points" "index < length positions" "\<not> (2::nat) ^ 31 \<le> index + 1"
    by simp_all
  have entry: "point_position_entry points positions index = Inr (points ! index, positions ! index)"
    using ok by (simp add: point_position_entry_def at1_def)
  from Cons.prems have "\<forall>index \<in> set rest. index < length points \<and> index < length positions \<and> index + 1 < 2 ^ 31"
    by simp
  from Cons.IH [OF this, of "map_insert (points ! index) (positions ! index) m"]
  obtain m' where
    run: "get_point_position_map_from points positions rest
            (map_insert (points ! index) (positions ! index) m) = Inr m'" and
    look: "\<And>key. map_of m' key =
          (case map_of (map_insert (points ! index) (positions ! index) m) key of
             Some x \<Rightarrow> Some x
           | None \<Rightarrow> map_of (map (\<lambda>i. (points ! i, positions ! i)) rest) key)" and
    keys: "map_keys m' = map_keys (map_insert (points ! index) (positions ! index) m)
             \<union> (\<lambda>i. points ! i) ` set rest"
    by blast
  have "get_point_position_map_from points positions (index # rest) m = Inr m'"
    using entry ok(3) run by simp
  moreover have "\<forall>key. map_of m' key =
          (case map_of m key of
             Some x \<Rightarrow> Some x
           | None \<Rightarrow> map_of (map (\<lambda>i. (points ! i, positions ! i)) (index # rest)) key)"
    by (auto simp: look map_of_map_insert split: option.splits)
  moreover have "map_keys m' = map_keys m \<union> (\<lambda>i. points ! i) ` set (index # rest)"
    by (auto simp: keys map_keys_map_insert)
  ultimately show ?case by blast
qed

lemma zip_as_index_map:
  "length points \<le> length positions \<Longrightarrow>
     map (\<lambda>i. (points ! i, positions ! i)) [0..<length points] = zip points positions"
  by (rule nth_equalityI) auto

lemma get_point_position_map_duplicate:
  "get_point_position_map [[1, 2, 3], [1, 2, 3]] [[0, 0, 0], [9, 9, 9 :: real]]
     = Inr [([1, 2, 3], [0, 0, 0])]"
  by (simp add: get_point_position_map_def point_position_entry_def at1_def map_insert_def
      upt_rec [of 0 2] upt_rec [of 1 2])

text \<open>
  C4, as the specification states it, fails: nothing in the code raises.  With the
  key \<open>{1, 2, 3}\<close> given twice, for the positions \<open>(0, 0, 0)\<close> and \<open>(9, 9, 9)\<close>,
  \<^verbatim>\<open>get_point_position_map\<close> returns the map that holds the first position only,
  and the binding \<^verbatim>\<open>sample_point_positions\<close> reports no error either: it does not
  return.
\<close>

theorem sample_point_positions_duplicate_key_counterexample:
  "get_point_position_map [[1, 2, 3], [1, 2, 3]] [[0, 0, 0], [9, 9, 9 :: real]]
     = Inr [([1, 2, 3], [0, 0, 0])]
   \<and> sample_point_positions field_value single_cell
        [[1, 2, 3], [1, 2, 3]] [[0, 0, 0], [9, 9, 9]] 7 = None"
  by (simp add: sample_point_positions_def get_point_position_map_duplicate
      get_sample_positions_map_def get_sample_positions_loop_diverges)

text \<open>
  C4, amended.  When the points and positions lists are read within bounds (at least
  as many positions as points, fewer than \<open>2^31\<close> points),
  \<^verbatim>\<open>get_point_position_map\<close>, by which \<^verbatim>\<open>sample_point_positions\<close> builds its
  map, raises nothing, also for a key that occurs twice with different positions: the
  map it returns has exactly the keys of the input, and each key is mapped to the
  position of its first occurrence; later occurrences are dropped.
\<close>

theorem get_point_position_map_keeps_first_occurrence:
  assumes "length points \<le> length positions" and "length points < 2 ^ 31"
  shows "\<exists>m. get_point_position_map points positions = Inr m
    \<and> map_of m = map_of (zip points positions)
    \<and> map_keys m = set points"
proof -
  have "\<forall>index \<in> set [0..<length points].
      index < length points \<and> index < length positions \<and> index + 1 < 2 ^ 31"
    using assms by auto
  from get_point_position_map_from_ok [OF this, of "[]"]
  obtain m where
    run: "get_point_position_map_from points positions [0..<length points] [] = Inr m" and
    look: "\<And>key. map_of m key = map_of (map (\<lambda>i. (points ! i, positions ! i)) [0..<length points]) key" and
    keys: "map_keys m = (\<lambda>i. points ! i) ` set [0..<length points]"
    by (auto simp: map_keys_def)
  have "map_of m = map_of (zip points positions)"
    by (rule ext) (simp add: look zip_as_index_map [OF assms(1)])
  moreover have "map_keys m = set points"
    by (simp add: keys nth_image)
  ultimately show ?thesis
    using run by (simp add: get_point_position_map_def)
qed

theorem get_point_position_map_keeps_first_occurrence_witness:
  "length [[1, 2, 3], [1, 2, 3 :: int]] \<le> length [[0, 0, 0], [9, 9, 9 :: real]]
   \<and> length [[1, 2, 3], [1, 2, 3 :: int]] < 2 ^ 31
   \<and> get_point_position_map [[1, 2, 3], [1, 2, 3]] [[0, 0, 0], [9, 9, 9 :: real]]
       = Inr [([1, 2, 3], [0, 0, 0])]
   \<and> map_of (zip [[1, 2, 3], [1, 2, 3 :: int]] [[0, 0, 0], [9, 9, 9 :: real]]) [1, 2, 3]
       = Some [0, 0, 0]
   \<and> map_keys [([1, 2, 3 :: int], [0, 0, 0 :: real])] = set [[1, 2, 3], [1, 2, 3]]"
  using get_point_position_map_keeps_first_occurrence
    [of "[[1, 2, 3], [1, 2, 3]]" "[[0, 0, 0], [9, 9, 9 :: real]]"]
  by (simp add: get_point_position_map_duplicate map_keys_def)

subsection \<open>Grid storage\<close>

lemma grid_offset_in_bounds:
  assumes "Grid_valid g"
  shows "0 \<le> grid_offset g u v w \<and> grid_offset g u v w < int (length (grid_data g))"
proof -
  let ?U = "int (nu g)" and ?V = "int (nv g)" and ?W = "int (nw g)"
  from assms have pos: "0 < ?U" "0 < ?V" "0 < ?W"
    and len: "int (length (grid_data g)) = ?U * ?V * ?W"
    by (simp_all add: Grid_valid_def)
  let ?a = "u mod ?U" and ?b = "v mod ?V" and ?c = "w mod ?W"
  have a: "0 \<le> ?a" "?a + 1 \<le> ?U"
    using pos_mod_sign [OF pos(1), of u] pos_mod_bound [OF pos(1), of u] by linarith+
  have b: "0 \<le> ?b" "?b + 1 \<le> ?V"
    using pos_mod_sign [OF pos(2), of v] pos_mod_bound [OF pos(2), of v] by linarith+
  have c: "0 \<le> ?c" "?c + 1 \<le> ?W"
    using pos_mod_sign [OF pos(3), of w] pos_mod_bound [OF pos(3), of w] by linarith+
  have lower: "0 \<le> (?a * ?V + ?b) * ?W + ?c"
    using a b c pos by simp
  have "?a * ?V + ?b + 1 \<le> (?a + 1) * ?V"
    using b by (simp add: algebra_simps)
  also have "\<dots> \<le> ?U * ?V"
    using a pos by (intro mult_right_mono) simp_all
  finally have ab: "?a * ?V + ?b + 1 \<le> ?U * ?V" .
  have "(?a * ?V + ?b) * ?W + ?c + 1 \<le> (?a * ?V + ?b + 1) * ?W"
    using c by (simp add: algebra_simps)
  also have "\<dots> \<le> (?U * ?V) * ?W"
    using ab pos by (intro mult_right_mono) simp_all
  finally have "(?a * ?V + ?b) * ?W + ?c < ?U * ?V * ?W"
    by simp
  with lower len show ?thesis
    by (simp add: grid_offset_def)
qed

lemma two_point_grid_valid: "Grid_valid two_point_grid"
  by (simp add: Grid_valid_def two_point_grid_def)

text \<open>
  C9.  On a constructed grid (extents at least 1, \<open>nu * nv * nw\<close> elements),
  \<^verbatim>\<open>at\<close> and \<^verbatim>\<open>set\<close> accept every integer triple, negative indices included:
  each index is reduced modulo its extent, the storage offset lies within the stored
  sequence, so neither access is out of bounds, and \<^verbatim>\<open>set\<close> leaves a constructed
  grid on which \<^verbatim>\<open>at\<close> reads the value back.
\<close>

theorem grid_access_wraps_and_stays_in_bounds:
  assumes "Grid_valid g"
  shows "0 \<le> grid_offset g u v w \<and> grid_offset g u v w < int (nu g * nv g * nw g)
    \<and> grid_offset g u v w
        = grid_offset g (u mod int (nu g)) (v mod int (nv g)) (w mod int (nw g))
    \<and> at_grid g u v w = Inr (grid_data g ! nat (grid_offset g u v w))
    \<and> set_grid g u v w x = Inr (g\<lparr>grid_data := (grid_data g)[nat (grid_offset g u v w) := x]\<rparr>)
    \<and> Grid_valid (g\<lparr>grid_data := (grid_data g)[nat (grid_offset g u v w) := x]\<rparr>)
    \<and> at_grid (g\<lparr>grid_data := (grid_data g)[nat (grid_offset g u v w) := x]\<rparr>) u v w = Inr x"
proof -
  let ?g' = "g\<lparr>grid_data := (grid_data g)[nat (grid_offset g u v w) := x]\<rparr>"
  from assms have len: "length (grid_data g) = nu g * nv g * nw g"
    by (simp add: Grid_valid_def)
  have bounds: "0 \<le> grid_offset g u v w" "grid_offset g u v w < int (length (grid_data g))"
    using grid_offset_in_bounds [OF assms, of u v w] by simp_all
  have wrap: "grid_offset g u v w
      = grid_offset g (u mod int (nu g)) (v mod int (nv g)) (w mod int (nw g))"
    by (simp add: grid_offset_def)
  have rd: "at_grid g u v w = Inr (grid_data g ! nat (grid_offset g u v w))"
    using bounds by (simp add: at_grid_def)
  have wr: "set_grid g u v w x = Inr ?g'"
    using bounds by (simp add: set_grid_def)
  have valid': "Grid_valid ?g'"
    using assms by (simp add: Grid_valid_def)
  have off': "grid_offset ?g' u v w = grid_offset g u v w"
    by (simp add: grid_offset_def)
  have readback: "at_grid ?g' u v w = Inr x"
    using bounds by (simp add: at_grid_def off')
  from bounds wrap rd wr valid' readback show ?thesis
    by (simp add: len)
qed

theorem grid_access_wraps_and_stays_in_bounds_witness:
  "Grid_valid two_point_grid
   \<and> grid_offset two_point_grid (- 3) 5 (- 2) = 1
   \<and> at_grid two_point_grid (- 3) 5 (- 2) = Inr 7
   \<and> set_grid two_point_grid (- 3) 5 (- 2) 9 = Inr (two_point_grid\<lparr>grid_data := [5, 9]\<rparr>)
   \<and> at_grid (two_point_grid\<lparr>grid_data := [5, 9]\<rparr>) (- 3) 5 (- 2) = Inr 9"
proof -
  have off: "grid_offset two_point_grid (- 3) 5 (- 2) = 1"
    by (simp add: grid_offset_def two_point_grid_def)
  from grid_access_wraps_and_stays_in_bounds [OF two_point_grid_valid, of "- 3" 5 "- 2" 9]
  show ?thesis
    by (simp add: off two_point_grid_valid) (simp add: two_point_grid_def)
qed

end
